theory Spec2Isabelle
  imports Main "HOL-Library.AList" "HOL-Library.Sublist" "HOL-Library.Word"
begin

unbundle bit_operations_syntax

section \<open>JavaScript values, JSON text and errors\<close>

text \<open>
  The values the cache and the session store handle. Numbers are the integers (times in
  milliseconds, TTLs in seconds); \<open>JUndefined\<close> is JavaScript's \<^verbatim>\<open>undefined\<close>, which is
  not a JSON value.
\<close>

datatype jsval =
    JUndefined
  | JNull
  | JBool bool
  | JNum int
  | JStr string
  | JArr "jsval list"
  | JObj "(string \<times> jsval) list"

text \<open>
  A stored text is held up to the value it denotes: \<open>Json v\<close> is a well-formed JSON text
  for \<open>v\<close>, \<open>Malformed s\<close> is the text \<open>s\<close>, which is not valid JSON (the empty string
  among them). That \<^verbatim>\<open>JSON.parse\<close> inverts \<^verbatim>\<open>JSON.stringify\<close> on JSON values is a
  property of the language runtime and is part of this model.
\<close>

datatype payload = Json jsval | Malformed string

datatype error = SyntaxError | RedisError | ModuleError | FileError | ProducerError | NotModelled


fun truthy_text :: "payload \<Rightarrow> bool" where
  "truthy_text (Json v) = True"
| "truthy_text (Malformed s) = (s \<noteq> [])"

text \<open>
  What \<^verbatim>\<open>JSON.parse(JSON.stringify(v))\<close> yields for a value other than
  \<^verbatim>\<open>undefined\<close>: an \<^verbatim>\<open>undefined\<close> array element becomes \<^verbatim>\<open>null\<close>, an
  \<^verbatim>\<open>undefined\<close> property is dropped.
\<close>

fun jsonify :: "jsval \<Rightarrow> jsval" where
  "jsonify JUndefined = JNull"
| "jsonify (JArr xs) = JArr (map jsonify xs)"
| "jsonify (JObj kvs) =
     JObj (map (\<lambda>kv. (fst kv, jsonify (snd kv))) (filter (\<lambda>kv. snd kv \<noteq> JUndefined) kvs))"
| "jsonify v = v"

text \<open>\<^verbatim>\<open>JSON.stringify\<close>: \<^verbatim>\<open>undefined\<close> has no JSON text, the result is \<^verbatim>\<open>undefined\<close>.\<close>

definition JSON_stringify :: "jsval \<Rightarrow> payload option" where
  "JSON_stringify v = (if v = JUndefined then None else Some (Json (jsonify v)))"

text \<open>
  \<^verbatim>\<open>JSON.parse\<close>: its argument is turned into a string first, so \<^verbatim>\<open>undefined\<close> is the
  text "undefined", which is not JSON.
\<close>

fun JSON_parse :: "payload option \<Rightarrow> error + jsval" where
  "JSON_parse None = Inl SyntaxError"
| "JSON_parse (Some (Malformed s)) = Inl SyntaxError"
| "JSON_parse (Some (Json v)) = Inr v"

text \<open>\<^verbatim>\<open>s.includes(e)\<close> and \<^verbatim>\<open>s.startsWith(p)\<close> on strings.\<close>

fun str_includes :: "string \<Rightarrow> string \<Rightarrow> bool" where
  "str_includes [] e = (e = [])"
| "str_includes (c # cs) e = (prefix e (c # cs) \<or> str_includes cs e)"

definition startsWith :: "string \<Rightarrow> string \<Rightarrow> bool" where
  "startsWith s p = prefix p s"

section \<open>The Redis client module\<close>

subsection \<open>Environment and TLS configuration\<close>

text \<open>The environment variables the module reads; \<open>None\<close> is an unset variable.\<close>

record env =
  REDIS_URL :: "string option"
  REDIS_TLS :: "string option"
  REDIS_TLS_CA :: "string option"
  REDIS_TLS_REJECT_UNAUTHORIZED :: "string option"
  REDIS_CONNECT_TIMEOUT :: "string option"
  REDIS_COMMAND_TIMEOUT :: "string option"

text \<open>An environment variable is truthy when it is set and not empty.\<close>

definition env_truthy :: "string option \<Rightarrow> bool" where
  "env_truthy x = (case x of None \<Rightarrow> False | Some s \<Rightarrow> s \<noteq> [])"

record tls_config =
  ca :: "8 word list option"
  rejectUnauthorized :: bool

text \<open>
  \<open>parseTlsConfig\<close>; \<open>None\<close> is the result \<^verbatim>\<open>false\<close>. The file system is the parameter
  \<open>readFileSync\<close>, which raises or returns the bytes of the file.
\<close>

definition parseTlsConfig :: "env \<Rightarrow> (string \<Rightarrow> error + 8 word list) \<Rightarrow> tls_config option" where
  "parseTlsConfig e readFileSync =
    (let redisUrl = (case REDIS_URL e of None \<Rightarrow> [] | Some u \<Rightarrow> u);
         redisTls = REDIS_TLS e
     in if startsWith redisUrl ''rediss://'' then Some \<lparr>ca = None, rejectUnauthorized = False\<rparr>
        else if redisTls = Some ''true'' \<or> redisTls = Some ''1''
          then Some \<lparr>ca = None, rejectUnauthorized = False\<rparr>
        else if env_truthy (REDIS_TLS_CA e) then
          (case readFileSync (the (REDIS_TLS_CA e)) of
             Inr bytes \<Rightarrow>
               Some \<lparr>ca = Some bytes,
                     rejectUnauthorized = (REDIS_TLS_REJECT_UNAUTHORIZED e \<noteq> Some ''false'')\<rparr>
           | Inl err \<Rightarrow> Some \<lparr>ca = None, rejectUnauthorized = False\<rparr>)
        else None)"

subsection \<open>Connection options\<close>

text \<open>\<open>retryStrategy\<close>: \<open>None\<close> is the result \<^verbatim>\<open>null\<close>, which stops the reconnection.\<close>

definition retryStrategy :: "int \<Rightarrow> int option" where
  "retryStrategy n = (if n > 10 then None else Some (min (n * 200) 5000))"

definition targetErrors :: "string list" where
  "targetErrors = [''READONLY'', ''ECONNRESET'', ''ETIMEDOUT'']"

text \<open>\<open>reconnectOnError\<close>, on the message of the error.\<close>

definition reconnectOnError :: "string \<Rightarrow> bool" where
  "reconnectOnError message = list_ex (\<lambda>e. str_includes message e) targetErrors"

text \<open>
  \<^verbatim>\<open>parseInt(s, 10)\<close>: leading white space, an optional sign, then the longest run of
  decimal digits; \<open>None\<close> is \<^verbatim>\<open>NaN\<close>.
\<close>

definition is_space :: "char \<Rightarrow> bool" where
  "is_space c = (c \<in> set [CHR '' '', CHR 0x09, CHR 0x0A, CHR 0x0B, CHR 0x0C, CHR 0x0D])"

definition is_digit :: "char \<Rightarrow> bool" where
  "is_digit c = ((of_char CHR ''0'' :: nat) \<le> of_char c \<and> (of_char c :: nat) \<le> of_char CHR ''9'')"

definition digit_val :: "char \<Rightarrow> nat" where
  "digit_val c = of_char c - (of_char CHR ''0'' :: nat)"

definition parseInt :: "string \<Rightarrow> int option" where
  "parseInt s =
    (let t = dropWhile is_space s;
         neg = (case t of c # r \<Rightarrow> c = CHR ''-'' | [] \<Rightarrow> False);
         u = (case t of c # r \<Rightarrow> (if c = CHR ''-'' \<or> c = CHR ''+'' then r else t) | [] \<Rightarrow> t);
         ds = takeWhile is_digit u;
         n = int (foldl (\<lambda>a c. 10 * a + digit_val c) 0 ds)
     in if ds = [] then None else Some (if neg then - n else n))"

record redis_options =
  maxRetriesPerRequest :: int
  enableReadyCheck :: bool
  lazyConnect :: bool
  tls :: "tls_config option"
  connectTimeout :: "int option option"
  commandTimeout :: "int option option"

text \<open>
  \<open>buildRedisOptions\<close>. The two callbacks of the options are \<open>retryStrategy\<close> and
  \<open>reconnectOnError\<close> above; a timeout is set only when its variable is, to what
  \<open>parseInt\<close> reads there.
\<close>

definition buildRedisOptions :: "env \<Rightarrow> (string \<Rightarrow> error + 8 word list) \<Rightarrow> redis_options" where
  "buildRedisOptions e readFileSync =
    \<lparr>maxRetriesPerRequest = 3, enableReadyCheck = True, lazyConnect = False,
     tls = parseTlsConfig e readFileSync,
     connectTimeout =
       (if env_truthy (REDIS_CONNECT_TIMEOUT e)
        then Some (parseInt (the (REDIS_CONNECT_TIMEOUT e))) else None),
     commandTimeout =
       (if env_truthy (REDIS_COMMAND_TIMEOUT e)
        then Some (parseInt (the (REDIS_COMMAND_TIMEOUT e))) else None)\<rparr>"

subsection \<open>Module state and the world around it\<close>

text \<open>
  A client handle records the URL and the options it was constructed with. The promise of
  an initialisation is pending or resolved to its boolean.
\<close>

datatype client = Client string redis_options

datatype promise = Pending | Resolved bool

text \<open>An entry of the remote store: the text and the time (ms) at which the key expires.\<close>

record rentry =
  rvalue :: payload
  rexpires :: int

text \<open>
  An entry of the fallback map of the cache: the serialised text (\<open>None\<close> when
  \<^verbatim>\<open>JSON.stringify\<close> gave \<^verbatim>\<open>undefined\<close>) and the absolute expiry time (ms).
\<close>

record cache_entry =
  cvalue :: "payload option"
  expiresAt :: int

text \<open>
  The state of the three modules (\<open>redisClient\<close>, \<open>isRedisConnected\<close>,
  \<open>connectionPromise\<close>; \<open>memoryCache\<close>; \<open>memorySessions\<close>) and of their environment:
  the key space of the remote server, the number of clients constructed so far, and a
  schedule \<open>faults\<close> that says for each coming remote command whether it raises (an empty
  schedule: none does). The two maps keep insertion order, as a JavaScript \<^verbatim>\<open>Map\<close> does.
\<close>

record world =
  redisClient :: "client option"
  isRedisConnected :: bool
  connectionPromise :: "promise option"
  attempts :: nat
  remote :: "(string \<times> rentry) list"
  faults :: "bool list"
  memoryCache :: "(string \<times> cache_entry) list"
  memorySessions :: "(string \<times> jsval) list"

definition getRedisClient :: "world \<Rightarrow> client option" where
  "getRedisClient w = redisClient w"

definition isRedisAvailable :: "world \<Rightarrow> bool" where
  "isRedisAvailable w = (isRedisConnected w \<and> redisClient w \<noteq> None)"

subsection \<open>Initialising the connection\<close>

text \<open>
  What the outside world does to one initialisation: whether loading the client library
  raises, whether the constructor raises, and how the server answers the PING.
\<close>

record attempt =
  require_ioredis :: "error option"
  new_Redis :: "error option"
  ping :: "error + string"

text \<open>
  The body of the \<^verbatim>\<open>try\<close> block up to its \<^verbatim>\<open>await\<close>. It runs without interruption.
  The URL is rewritten only when it starts with the TLS scheme, so the first occurrence
  that \<^verbatim>\<open>replace\<close> rewrites is that prefix.
\<close>

definition init_try :: "env \<Rightarrow> (string \<Rightarrow> error + 8 word list) \<Rightarrow> attempt \<Rightarrow> world \<Rightarrow> (error + unit) \<times> world" where
  "init_try e readFileSync a w =
    (case require_ioredis a of
       Some err \<Rightarrow> (Inl err, w)
     | None \<Rightarrow>
        (let options = buildRedisOptions e readFileSync;
             redisUrl = the (REDIS_URL e);
             connectionUrl =
               (if startsWith redisUrl ''rediss://'' \<and> tls options \<noteq> None
                then ''redis://'' @ drop (length ''rediss://'') redisUrl else redisUrl)
         in case new_Redis a of
              Some err \<Rightarrow> (Inl err, w)
            | None \<Rightarrow>
                (Inr (), w\<lparr>redisClient := Some (Client connectionUrl options),
                           attempts := attempts w + 1\<rparr>)))"

text \<open>The \<^verbatim>\<open>catch\<close> and the \<^verbatim>\<open>finally\<close> blocks.\<close>

definition init_catch :: "world \<Rightarrow> world" where
  "init_catch w = w\<lparr>redisClient := None, isRedisConnected := False\<rparr>"

definition init_finally :: "world \<Rightarrow> world" where
  "init_finally w = w\<lparr>connectionPromise := None\<rparr>"

text \<open>
  A call of \<open>initRedisClient\<close> up to the point where its caller has a promise: the
  promise is settled already (\<open>Done\<close>), or it is the one of the attempt in flight
  (\<open>Await\<close>). When the body raises before its \<^verbatim>\<open>await\<close>, the \<^verbatim>\<open>finally\<close> block runs
  before the promise of the body is assigned to \<open>connectionPromise\<close>.
\<close>

datatype outcome = Done bool | Await

definition initRedisClient_call :: "env \<Rightarrow> (string \<Rightarrow> error + 8 word list) \<Rightarrow> attempt \<Rightarrow> world \<Rightarrow> outcome \<times> world" where
  "initRedisClient_call e readFileSync a w =
    (if \<not> env_truthy (REDIS_URL e) then (Done False, w)
     else case connectionPromise w of
       Some Pending \<Rightarrow> (Await, w)
     | Some (Resolved b) \<Rightarrow> (Done b, w)
     | None \<Rightarrow>
        (case init_try e readFileSync a w of
           (Inl err, w1) \<Rightarrow>
             (Done False, (init_finally (init_catch w1))\<lparr>connectionPromise := Some (Resolved False)\<rparr>)
         | (Inr u, w1) \<Rightarrow> (Await, w1\<lparr>connectionPromise := Some Pending\<rparr>)))"

text \<open>The rest of the body, run when the PING of the attempt in flight settles.\<close>

definition initRedisClient_settle :: "error + string \<Rightarrow> world \<Rightarrow> bool \<times> world" where
  "initRedisClient_settle p w =
    (case p of
       Inr pong \<Rightarrow> (True, init_finally (w\<lparr>isRedisConnected := True\<rparr>))
     | Inl err \<Rightarrow> (False, init_finally (init_catch w)))"

text \<open>\<open>initRedisClient\<close>, called and awaited with no other caller in between.\<close>

definition initRedisClient :: "env \<Rightarrow> (string \<Rightarrow> error + 8 word list) \<Rightarrow> attempt \<Rightarrow> world \<Rightarrow> bool \<times> world" where
  "initRedisClient e readFileSync a w =
    (case initRedisClient_call e readFileSync a w of
       (Done b, w1) \<Rightarrow> (b, w1)
     | (Await, w1) \<Rightarrow> initRedisClient_settle (ping a) w1)"

text \<open>
  Several callers: an event is a call by caller \<open>i\<close>, the settling of the PING in
  flight, or one of the connection events the module listens to. \<open>waiting\<close> holds
  the callers that await the promise in flight, \<open>received\<close> what each caller got.
\<close>

datatype event = Call nat attempt | Settle "error + string" | Ready | Failure | Close

record sched =
  world_of :: world
  waiting :: "nat list"
  received :: "(nat \<times> bool) list"

fun step :: "env \<Rightarrow> (string \<Rightarrow> error + 8 word list) \<Rightarrow> sched \<Rightarrow> event \<Rightarrow> sched" where
  "step e rf s (Call i a) =
    (case initRedisClient_call e rf a (world_of s) of
       (Done b, w1) \<Rightarrow> s\<lparr>world_of := w1, received := received s @ [(i, b)]\<rparr>
     | (Await, w1) \<Rightarrow> s\<lparr>world_of := w1, waiting := waiting s @ [i]\<rparr>)"
| "step e rf s (Settle p) =
    (if connectionPromise (world_of s) = Some Pending then
       (case initRedisClient_settle p (world_of s) of
          (b, w1) \<Rightarrow>
            s\<lparr>world_of := w1, waiting := [],
              received := received s @ map (\<lambda>i. (i, b)) (waiting s)\<rparr>)
     else s)"
| "step e rf s Ready = s\<lparr>world_of := (world_of s)\<lparr>isRedisConnected := True\<rparr>\<rparr>"
| "step e rf s Failure = s\<lparr>world_of := (world_of s)\<lparr>isRedisConnected := False\<rparr>\<rparr>"
| "step e rf s Close = s\<lparr>world_of := (world_of s)\<lparr>isRedisConnected := False\<rparr>\<rparr>"

definition run :: "env \<Rightarrow> (string \<Rightarrow> error + 8 word list) \<Rightarrow> sched \<Rightarrow> event list \<Rightarrow> sched" where
  "run e rf s evs = foldl (step e rf) s evs"

section \<open>The remote store\<close>

text \<open>
  The server behind the client handle, as far as the two modules use it: texts under
  keys, each with an expiry time, read and written by SETEX, GET, DEL and KEYS. Every
  command first consumes one entry of the fault schedule and raises when it says so.
\<close>

definition take_fault :: "world \<Rightarrow> bool \<times> world" where
  "take_fault w = (case faults w of [] \<Rightarrow> (False, w) | f # fs \<Rightarrow> (f, w\<lparr>faults := fs\<rparr>))"

text \<open>A key of the server is live until its expiry time has passed.\<close>

definition live :: "int \<Rightarrow> (string \<times> rentry) list \<Rightarrow> string \<Rightarrow> bool" where
  "live now r k = (case map_of r k of None \<Rightarrow> False | Some en \<Rightarrow> \<not> now > rexpires en)"

text \<open>
  The client library sends \<^verbatim>\<open>undefined\<close> as the empty string. The server refuses an
  expiry that is not positive.
\<close>

definition to_arg :: "payload option \<Rightarrow> payload" where
  "to_arg x = (case x of None \<Rightarrow> Malformed [] | Some t \<Rightarrow> t)"

definition client_setex :: "world \<Rightarrow> int \<Rightarrow> string \<Rightarrow> int \<Rightarrow> payload option \<Rightarrow> (error + unit) \<times> world" where
  "client_setex w now k ttl x =
    (case take_fault w of
       (True, w1) \<Rightarrow> (Inl RedisError, w1)
     | (False, w1) \<Rightarrow>
         if ttl \<le> 0 then (Inl RedisError, w1)
         else (Inr (),
               w1\<lparr>remote := AList.update k \<lparr>rvalue = to_arg x, rexpires = now + ttl * 1000\<rparr> (remote w1)\<rparr>))"

definition client_get :: "world \<Rightarrow> int \<Rightarrow> string \<Rightarrow> (error + payload option) \<times> world" where
  "client_get w now k =
    (case take_fault w of
       (True, w1) \<Rightarrow> (Inl RedisError, w1)
     | (False, w1) \<Rightarrow>
         (Inr (if live now (remote w1) k then map_option rvalue (map_of (remote w1) k) else None), w1))"

text \<open>DEL removes the keys given and answers with the number of live keys among them.\<close>

definition client_del :: "world \<Rightarrow> int \<Rightarrow> string list \<Rightarrow> (error + nat) \<times> world" where
  "client_del w now ks =
    (case take_fault w of
       (True, w1) \<Rightarrow> (Inl RedisError, w1)
     | (False, w1) \<Rightarrow>
         (Inr (length (filter (live now (remote w1)) (remdups ks))),
          w1\<lparr>remote := filter (\<lambda>kv. fst kv \<notin> set ks) (remote w1)\<rparr>))"

text \<open>
  The pattern language of KEYS: \<open>*\<close> stands for any run of characters and \<open>?\<close> for
  one character. Character classes and escapes are not modelled.
\<close>

fun redis_glob :: "string \<Rightarrow> string \<Rightarrow> bool" where
  "redis_glob [] s = (s = [])"
| "redis_glob (p # ps) s =
    (if p = CHR ''*'' then
       (redis_glob ps s \<or> (case s of [] \<Rightarrow> False | c # cs \<Rightarrow> redis_glob (p # ps) cs))
     else (case s of [] \<Rightarrow> False | c # cs \<Rightarrow> (p = CHR ''?'' \<or> p = c) \<and> redis_glob ps cs))"

definition client_keys :: "world \<Rightarrow> int \<Rightarrow> string \<Rightarrow> (error + string list) \<times> world" where
  "client_keys w now pat =
    (case take_fault w of
       (True, w1) \<Rightarrow> (Inl RedisError, w1)
     | (False, w1) \<Rightarrow>
         if CHR ''['' \<in> set pat \<or> CHR 0x5C \<in> set pat then (Inl NotModelled, w1)
         else (Inr (filter (\<lambda>k. live now (remote w1) k \<and> redis_glob pat k) (map fst (remote w1))), w1))"

section \<open>The cache module\<close>

definition DEFAULT_TTL :: int where
  "DEFAULT_TTL = 60"

definition CACHE_PREFIX :: string where
  "CACHE_PREFIX = ''cache:''"

text \<open>The write to the fallback map at the end of \<open>set\<close>.\<close>

definition memory_set :: "world \<Rightarrow> int \<Rightarrow> string \<Rightarrow> payload option \<Rightarrow> int \<Rightarrow> world" where
  "memory_set w now fullKey serialized ttl =
    w\<lparr>memoryCache :=
        AList.update fullKey \<lparr>cvalue = serialized, expiresAt = now + ttl * 1000\<rparr> (memoryCache w)\<rparr>"

text \<open>\<open>set\<close>, at clock value \<open>now\<close>.\<close>

definition set_cache :: "world \<Rightarrow> int \<Rightarrow> string \<Rightarrow> jsval \<Rightarrow> int \<Rightarrow> bool \<times> world" where
  "set_cache w now key v ttl =
    (let fullKey = CACHE_PREFIX @ key;
         serialized = JSON_stringify v;
         client = getRedisClient w
     in if isRedisAvailable w \<and> client \<noteq> None then
          (case client_setex w now fullKey ttl serialized of
             (Inr u, w1) \<Rightarrow> (True, w1)
           | (Inl err, w1) \<Rightarrow> (True, memory_set w1 now fullKey serialized ttl))
        else (True, memory_set w now fullKey serialized ttl))"

text \<open>The read of the fallback map at the end of \<open>get\<close>; \<open>JNull\<close> is the absent value.\<close>

definition memory_get :: "world \<Rightarrow> int \<Rightarrow> string \<Rightarrow> (error + jsval) \<times> world" where
  "memory_get w now fullKey =
    (case map_of (memoryCache w) fullKey of
       None \<Rightarrow> (Inr JNull, w)
     | Some cached \<Rightarrow>
         if now > expiresAt cached
         then (Inr JNull, w\<lparr>memoryCache := AList.delete fullKey (memoryCache w)\<rparr>)
         else (JSON_parse (cvalue cached), w))"

text \<open>
  \<open>get\<close>, at clock value \<open>now\<close>. The \<^verbatim>\<open>try\<close> block holds the remote read and the
  parsing of what it returned: a failure of either one goes on to the fallback map.
\<close>

definition get_cache :: "world \<Rightarrow> int \<Rightarrow> string \<Rightarrow> (error + jsval) \<times> world" where
  "get_cache w now key =
    (let fullKey = CACHE_PREFIX @ key;
         client = getRedisClient w
     in if isRedisAvailable w \<and> client \<noteq> None then
          (case client_get w now fullKey of
             (Inr data, w1) \<Rightarrow>
               (case data of
                  None \<Rightarrow> (Inr JNull, w1)
                | Some d \<Rightarrow>
                    if truthy_text d then
                      (case JSON_parse (Some d) of
                         Inr v \<Rightarrow> (Inr v, w1)
                       | Inl err \<Rightarrow> memory_get w1 now fullKey)
                    else (Inr JNull, w1))
           | (Inl err, w1) \<Rightarrow> memory_get w1 now fullKey)
        else memory_get w now fullKey)"

text \<open>\<open>del\<close>.\<close>

definition del_cache :: "world \<Rightarrow> int \<Rightarrow> string \<Rightarrow> bool \<times> world" where
  "del_cache w now key =
    (let fullKey = CACHE_PREFIX @ key;
         client = getRedisClient w;
         w1 = (if isRedisAvailable w \<and> client \<noteq> None
               then snd (client_del w now [fullKey]) else w)
     in (True, w1\<lparr>memoryCache := AList.delete fullKey (memoryCache w1)\<rparr>))"

subsection \<open>Deleting by pattern\<close>

text \<open>\<^verbatim>\<open>s.replace(/\*/g, '.*')\<close>.\<close>

fun replace_stars :: "string \<Rightarrow> string" where
  "replace_stars [] = []"
| "replace_stars (c # cs) = (if c = CHR ''*'' then ''.*'' @ replace_stars cs else c # replace_stars cs)"

text \<open>
  The regular expressions the model covers: a sequence of single characters and dots,
  each one possibly starred, anchored at both ends. A dot matches any character but a
  line terminator. A source with any other syntax character of regular expressions
  is answered with \<open>NotModelled\<close>.
\<close>

datatype atom = Lit char | Dot

datatype item = One atom | Star atom

definition syntax_char :: "char \<Rightarrow> bool" where
  "syntax_char c = (c \<in> set (CHR 0x5C # ''^$.*+?()[]{}|''))"

fun parse_items :: "string \<Rightarrow> error + item list" where
  "parse_items [] = Inr []"
| "parse_items (c # cs) =
    (if syntax_char c \<and> c \<noteq> CHR ''.'' then Inl NotModelled
     else (let a = (if c = CHR ''.'' then Dot else Lit c)
           in case cs of
                d # ds \<Rightarrow>
                  (if d = CHR ''*'' then map_sum id ((#) (Star a)) (parse_items ds)
                   else map_sum id ((#) (One a)) (parse_items cs))
              | [] \<Rightarrow> Inr [One a]))"

definition RegExp :: "string \<Rightarrow> error + item list" where
  "RegExp src =
    (case src of
       [] \<Rightarrow> Inl NotModelled
     | c # rest \<Rightarrow>
         if c = CHR ''^'' \<and> rest \<noteq> [] \<and> last rest = CHR ''$'' then parse_items (butlast rest)
         else Inl NotModelled)"

definition line_terminator :: "char \<Rightarrow> bool" where
  "line_terminator c = (c = CHR 0x0A \<or> c = CHR 0x0D)"

fun atom_matches :: "atom \<Rightarrow> char \<Rightarrow> bool" where
  "atom_matches (Lit a) c = (a = c)"
| "atom_matches Dot c = (\<not> line_terminator c)"

fun items_match :: "item list \<Rightarrow> string \<Rightarrow> bool" where
  "items_match [] s = (s = [])"
| "items_match (One a # r) [] = False"
| "items_match (One a # r) (c # cs) = (atom_matches a c \<and> items_match r cs)"
| "items_match (Star a # r) [] = items_match r []"
| "items_match (Star a # r) (c # cs) =
    (items_match r (c # cs) \<or> (atom_matches a c \<and> items_match (Star a # r) cs))"

definition regex_test :: "item list \<Rightarrow> string \<Rightarrow> bool" where
  "regex_test regex key = items_match regex key"

text \<open>The loop over the keys of the fallback map.\<close>

definition delete_matching :: "item list \<Rightarrow> (string \<times> cache_entry) list \<Rightarrow> (string \<times> cache_entry) list \<times> nat" where
  "delete_matching regex m =
    fold (\<lambda>key (m', count). if regex_test regex key then (AList.delete key m', count + 1) else (m', count))
         (map fst m) (m, 0)"

text \<open>The remote part of \<open>delByPattern\<close>: the number of keys removed there.\<close>

definition remote_delByPattern :: "world \<Rightarrow> int \<Rightarrow> string \<Rightarrow> nat \<times> world" where
  "remote_delByPattern w now fullPattern =
    (case client_keys w now fullPattern of
       (Inr keys, w1) \<Rightarrow>
         if length keys > 0 then
           (case client_del w1 now keys of
              (Inr n, w2) \<Rightarrow> (n, w2)
            | (Inl err, w2) \<Rightarrow> (0, w2))
         else (0, w1)
     | (Inl err, w1) \<Rightarrow> (0, w1))"

text \<open>\<open>delByPattern\<close>.\<close>

definition delByPattern :: "world \<Rightarrow> int \<Rightarrow> string \<Rightarrow> (error + nat) \<times> world" where
  "delByPattern w now pattern =
    (let fullPattern = CACHE_PREFIX @ pattern;
         client = getRedisClient w;
         (count, w1) = (if isRedisAvailable w \<and> client \<noteq> None
                        then remote_delByPattern w now fullPattern else (0, w))
     in case RegExp (''^'' @ replace_stars fullPattern @ ''$'') of
          Inl err \<Rightarrow> (Inl err, w1)
        | Inr regex \<Rightarrow>
            (let (m, deleted) = delete_matching regex (memoryCache w1)
             in (Inr (count + deleted), w1\<lparr>memoryCache := m\<rparr>)))"

text \<open>
  The glob of the specification: \<open>*\<close> is the one wildcard and stands for any run of
  characters, every other character stands for itself.
\<close>

fun glob_matches :: "string \<Rightarrow> string \<Rightarrow> bool" where
  "glob_matches [] s = (s = [])"
| "glob_matches (p # ps) [] = (p = CHR ''*'' \<and> glob_matches ps [])"
| "glob_matches (p # ps) (c # cs) =
    (if p = CHR ''*'' then glob_matches ps (c # cs) \<or> glob_matches (p # ps) cs
     else p = c \<and> glob_matches ps cs)"

subsection \<open>Get or set\<close>

text \<open>
  \<open>getOrSet\<close>. The producer \<open>fetchFn\<close> has a state of its own (\<open>s\<close>), so that its
  invocations can be observed; it raises or returns a value.
\<close>

definition getOrSet :: "world \<Rightarrow> int \<Rightarrow> string \<Rightarrow> ('s \<Rightarrow> (error + jsval) \<times> 's) \<Rightarrow> 's \<Rightarrow> int \<Rightarrow> (error + jsval) \<times> world \<times> 's" where
  "getOrSet w now key fetchFn s ttl =
    (case get_cache w now key of
       (Inl err, w1) \<Rightarrow> (Inl err, w1, s)
     | (Inr cached, w1) \<Rightarrow>
         if cached \<noteq> JNull then (Inr cached, w1, s)
         else (case fetchFn s of
                 (Inl err, s1) \<Rightarrow> (Inl err, w1, s1)
               | (Inr data, s1) \<Rightarrow>
                   if data \<noteq> JUndefined
                   then (Inr data, snd (set_cache w1 now key data ttl), s1)
                   else (Inr data, w1, s1)))"

text \<open>A producer that counts its invocations and returns \<open>v\<close>.\<close>

definition counting :: "jsval \<Rightarrow> nat \<Rightarrow> (error + jsval) \<times> nat" where
  "counting v n = (Inr v, Suc n)"

section \<open>The session module\<close>














section \<open>Notions used in the statements\<close>

text \<open>A JSON value: a value with no \<^verbatim>\<open>undefined\<close> in it.\<close>

fun is_json :: "jsval \<Rightarrow> bool" where
  "is_json JUndefined = False"
| "is_json (JArr xs) = list_all is_json xs"
| "is_json (JObj kvs) = list_all (\<lambda>kv. is_json (snd kv)) kvs"
| "is_json v = True"

text \<open>None of the next \<open>n\<close> remote commands raises.\<close>

definition no_fault :: "nat \<Rightarrow> world \<Rightarrow> bool" where
  "no_fault n w = (True \<notin> set (take n (faults w)))"

text \<open>The callers in a list of events, and the events that settle the attempt in flight.\<close>

fun callers :: "event list \<Rightarrow> nat list" where
  "callers [] = []"
| "callers (Call i a # evs) = i # callers evs"
| "callers (ev # evs) = callers evs"

fun is_settle :: "event \<Rightarrow> bool" where
  "is_settle (Settle p) = True"
| "is_settle ev = False"

text \<open>
  A pattern in which \<open>*\<close> is the only syntax character of regular expressions, and the
  item of the regular expression that each of its characters becomes.
\<close>

definition item_of :: "char \<Rightarrow> item" where
  "item_of c = (if c = CHR ''*'' then Star Dot else One (Lit c))"

definition plain_pattern :: "string \<Rightarrow> bool" where
  "plain_pattern p = list_all (\<lambda>c. c = CHR ''*'' \<or> \<not> syntax_char c) p"

section \<open>Example inputs\<close>

definition env_plain :: env where
  "env_plain =
    \<lparr>REDIS_URL = Some ''redis://localhost:6379'', REDIS_TLS = None, REDIS_TLS_CA = None,
     REDIS_TLS_REJECT_UNAUTHORIZED = None, REDIS_CONNECT_TIMEOUT = None,
     REDIS_COMMAND_TIMEOUT = None\<rparr>"

definition env_rediss :: env where
  "env_rediss = env_plain\<lparr>REDIS_URL := Some ''rediss://cache.example:6380''\<rparr>"

definition env_ca :: env where
  "env_ca = env_plain\<lparr>REDIS_TLS_CA := Some ''/etc/redis/ca.pem''\<rparr>"

definition read_ca :: "string \<Rightarrow> error + 8 word list" where
  "read_ca path = (if path = ''/etc/redis/ca.pem'' then Inr [0x2D, 0x2D] else Inl FileError)"

definition attempt_ok :: attempt where
  "attempt_ok = \<lparr>require_ioredis = None, new_Redis = None, ping = Inr ''PONG''\<rparr>"

definition attempt_refused :: attempt where
  "attempt_refused = \<lparr>require_ioredis = None, new_Redis = None, ping = Inl RedisError\<rparr>"

text \<open>A world with no connection and empty stores, and one with a ready connection.\<close>

definition world_idle :: world where
  "world_idle =
    \<lparr>redisClient = None, isRedisConnected = False, connectionPromise = None, attempts = 0,
     remote = [], faults = [], memoryCache = [], memorySessions = []\<rparr>"

definition world_up :: world where
  "world_up =
    world_idle\<lparr>redisClient := Some (Client ''redis://localhost:6379'' (buildRedisOptions env_plain read_ca)),
               isRedisConnected := True, attempts := 1\<rparr>"

text \<open>A world with a ready connection whose second remote command will raise.\<close>

definition world_flaky :: world where
  "world_flaky = world_up\<lparr>faults := [False, True]\<rparr>"

definition sched_idle :: sched where
  "sched_idle = \<lparr>world_of = world_idle, waiting = [], received = []\<rparr>"






text \<open>
  A world without connection whose fallback map holds three keys: two that differ in
  the character at the place of a dot, and one with a line feed in it.
\<close>

definition world_abc :: world where
  "world_abc =
    world_idle\<lparr>memoryCache :=
      [(''cache:abc'', \<lparr>cvalue = Some (Json (JNum 1)), expiresAt = 5000\<rparr>),
       (''cache:a.c'', \<lparr>cvalue = Some (Json (JNum 2)), expiresAt = 5000\<rparr>),
       (''cache:x'' @ [CHR 0x0A] @ ''y'', \<lparr>cvalue = Some (Json (JNum 3)), expiresAt = 5000\<rparr>)]\<rparr>"

section \<open>Reconnection policy and TLS configuration\<close>

lemma str_includes_iff: "str_includes s e \<longleftrightarrow> (\<exists>p q. s = p @ e @ q)"
proof (induction s)
  case Nil
  then show ?case by auto
next
  case (Cons c cs)
  show ?case
  proof
    assume "str_includes (c # cs) e"
    then consider "prefix e (c # cs)" | "str_includes cs e" by auto
    then show "\<exists>p q. c # cs = p @ e @ q"
    proof cases
      case 1
      then obtain q where "c # cs = e @ q" by (auto simp: prefix_def)
      then have "c # cs = [] @ e @ q" by simp
      then show ?thesis by blast
    next
      case 2
      with Cons.IH obtain p q where "cs = p @ e @ q" by blast
      then have "c # cs = (c # p) @ e @ q" by simp
      then show ?thesis by blast
    qed
  next
    assume "\<exists>p q. c # cs = p @ e @ q"
    then obtain p q where pq: "c # cs = p @ e @ q" by blast
    show "str_includes (c # cs) e"
    proof (cases p)
      case Nil
      with pq have "prefix e (c # cs)" by (simp add: prefix_def)
      then show ?thesis by simp
    next
      case (Cons a p')
      with pq have "cs = p' @ e @ q" by simp
      with Cons.IH have "str_includes cs e" by blast
      then show ?thesis by simp
    qed
  qed
qed

text \<open>
  C8. The delay before reconnection attempt \<open>n\<close>, for \<open>1 \<le> n \<le> 10\<close>, is
  \<open>min (n * 200) 5000\<close> milliseconds, which is \<open>n * 200\<close> there (the ceiling is never
  reached); for \<open>n > 10\<close> the strategy gives no delay and the reconnection is given up.
  An error triggers the reconnection exactly when its message contains one of READONLY,
  ECONNRESET and ETIMEDOUT.
\<close>

theorem retry_backoff_linear_bounded:
  "(1 \<le> n \<and> n \<le> 10 \<longrightarrow>
      retryStrategy n = Some (min (n * 200) 5000) \<and> min (n * 200) 5000 = n * 200)
   \<and> (n > 10 \<longrightarrow> retryStrategy n = None)
   \<and> (reconnectOnError m \<longleftrightarrow>
        (\<exists>e \<in> {''READONLY'', ''ECONNRESET'', ''ETIMEDOUT''}. \<exists>p q. m = p @ e @ q))"
  by (simp add: retryStrategy_def reconnectOnError_def targetErrors_def str_includes_iff)

theorem retry_backoff_linear_bounded_witness:
  "(1::int) \<le> 3 \<and> (3::int) \<le> 10 \<and> retryStrategy 3 = Some 600
   \<and> (11::int) > 10 \<and> retryStrategy 11 = None
   \<and> reconnectOnError ''read ECONNRESET'' \<and> \<not> reconnectOnError ''ENOTFOUND''"
proof -
  have a: "''read ECONNRESET'' = ''read '' @ ''ECONNRESET'' @ []" by simp
  have "\<exists>p q. ''read ECONNRESET'' = p @ ''ECONNRESET'' @ q" using a by blast
  then have r: "reconnectOnError ''read ECONNRESET''"
    using retry_backoff_linear_bounded [of 3 "''read ECONNRESET''"] by blast
  have n: "\<not> reconnectOnError ''ENOTFOUND''"
    by (simp add: reconnectOnError_def targetErrors_def)
  show ?thesis
    using retry_backoff_linear_bounded [of 3 "[]"] retry_backoff_linear_bounded [of 11 "[]"] r n
    by simp
qed

text \<open>
  C10. When the URL has the scheme \<^verbatim>\<open>rediss://\<close>, or the variable REDIS_TLS is
  \<^verbatim>\<open>true\<close> or \<^verbatim>\<open>1\<close>, the TLS configuration has no CA and does not verify the
  certificate. A configuration that verifies the certificate comes only from a CA file
  that is configured and was read: it carries the bytes of that file.
\<close>

theorem tls_verification_needs_readable_ca:
  "((\<exists>u. REDIS_URL e = Some u \<and> startsWith u ''rediss://'')
      \<or> REDIS_TLS e = Some ''true'' \<or> REDIS_TLS e = Some ''1''
      \<longrightarrow> parseTlsConfig e rf = Some \<lparr>ca = None, rejectUnauthorized = False\<rparr>)
   \<and> (\<forall>cfg. parseTlsConfig e rf = Some cfg \<and> rejectUnauthorized cfg \<longrightarrow>
         (\<exists>path bytes. REDIS_TLS_CA e = Some path \<and> path \<noteq> [] \<and> rf path = Inr bytes
            \<and> ca cfg = Some bytes))"
  by (auto simp: parseTlsConfig_def Let_def env_truthy_def startsWith_def
      split: option.splits sum.splits if_splits)

theorem tls_verification_needs_readable_ca_witness:
  "(\<exists>u. REDIS_URL env_rediss = Some u \<and> startsWith u ''rediss://'')
   \<and> parseTlsConfig env_rediss read_ca = Some \<lparr>ca = None, rejectUnauthorized = False\<rparr>
   \<and> parseTlsConfig env_ca read_ca = Some \<lparr>ca = Some [0x2D, 0x2D], rejectUnauthorized = True\<rparr>
   \<and> REDIS_TLS_CA env_ca = Some ''/etc/redis/ca.pem'' \<and> read_ca ''/etc/redis/ca.pem'' = Inr [0x2D, 0x2D]"
proof -
  have u: "\<exists>u. REDIS_URL env_rediss = Some u \<and> startsWith u ''rediss://''"
    by (simp add: env_rediss_def env_plain_def startsWith_def)
  have c: "parseTlsConfig env_ca read_ca = Some \<lparr>ca = Some [0x2D, 0x2D], rejectUnauthorized = True\<rparr>"
    by (simp add: parseTlsConfig_def env_ca_def env_plain_def read_ca_def env_truthy_def
        startsWith_def Let_def)
  show ?thesis
    using u c tls_verification_needs_readable_ca [of env_rediss read_ca]
      tls_verification_needs_readable_ca [of env_ca read_ca]
    by (simp add: env_ca_def env_plain_def read_ca_def)
qed

section \<open>Initialising the connection\<close>

text \<open>
  C6. With a URL configured and no initialisation in flight, whenever loading the client
  library, constructing the client or the PING raises, \<open>initRedisClient\<close> returns
  \<open>False\<close> (the result is a boolean in every case: the failure is not raised to the
  caller), the stored client handle is none, the connected flag is off and the remote
  store is reported as not available.
\<close>

theorem initRedisClient_fails_closed:
  "env_truthy (REDIS_URL e) \<Longrightarrow> connectionPromise w = None \<Longrightarrow>
   require_ioredis a \<noteq> None \<or> new_Redis a \<noteq> None \<or> isl (ping a) \<Longrightarrow>
   fst (initRedisClient e rf a w) = False
   \<and> redisClient (snd (initRedisClient e rf a w)) = None
   \<and> \<not> isRedisConnected (snd (initRedisClient e rf a w))
   \<and> \<not> isRedisAvailable (snd (initRedisClient e rf a w))"
  by (auto simp: initRedisClient_def initRedisClient_call_def initRedisClient_settle_def
      init_try_def init_catch_def init_finally_def isRedisAvailable_def Let_def isl_def
      split: option.splits sum.splits)

theorem initRedisClient_fails_closed_witness:
  "env_truthy (REDIS_URL env_plain) \<and> connectionPromise world_up = None
   \<and> isl (ping attempt_refused)
   \<and> isRedisAvailable world_up
   \<and> fst (initRedisClient env_plain read_ca attempt_refused world_up) = False
   \<and> redisClient (snd (initRedisClient env_plain read_ca attempt_refused world_up)) = None
   \<and> \<not> isRedisConnected (snd (initRedisClient env_plain read_ca attempt_refused world_up))"
proof -
  have h: "env_truthy (REDIS_URL env_plain)" "connectionPromise world_up = None"
      "isl (ping attempt_refused)" "isRedisAvailable world_up"
    by (simp_all add: env_plain_def env_truthy_def world_up_def world_idle_def
        attempt_refused_def isRedisAvailable_def)
  have d: "require_ioredis attempt_refused \<noteq> None \<or> new_Redis attempt_refused \<noteq> None
      \<or> isl (ping attempt_refused)"
    using h(3) by simp
  show ?thesis
    using h initRedisClient_fails_closed [OF h(1) h(2) d, of read_ca] by simp
qed

lemma in_flight_step:
  assumes "env_truthy (REDIS_URL e)" "connectionPromise (world_of s) = Some Pending"
    "\<not> is_settle ev"
  shows "connectionPromise (world_of (step e rf s ev)) = Some Pending
       \<and> attempts (world_of (step e rf s ev)) = attempts (world_of s)
       \<and> waiting (step e rf s ev) = waiting s @ callers [ev]
       \<and> received (step e rf s ev) = received s"
  using assms by (cases ev) (simp_all add: initRedisClient_call_def)

lemma in_flight_run:
  assumes "env_truthy (REDIS_URL e)" "connectionPromise (world_of s) = Some Pending"
    "\<forall>ev \<in> set evs. \<not> is_settle ev"
  shows "connectionPromise (world_of (run e rf s evs)) = Some Pending
       \<and> attempts (world_of (run e rf s evs)) = attempts (world_of s)
       \<and> waiting (run e rf s evs) = waiting s @ callers evs
       \<and> received (run e rf s evs) = received s"
  using assms(2,3)
proof (induction evs arbitrary: s)
  case Nil
  then show ?case by (simp add: run_def)
next
  case (Cons ev evs)
  have nev: "\<not> is_settle ev" using Cons.prems(2) by simp
  note st = in_flight_step [OF assms(1) Cons.prems(1) nev, of rf]
  have rest: "\<forall>ev \<in> set evs. \<not> is_settle ev" using Cons.prems(2) by simp
  have st1: "connectionPromise (world_of (step e rf s ev)) = Some Pending" using st by blast
  note ih = Cons.IH [OF st1 rest]
  have r: "run e rf s (ev # evs) = run e rf (step e rf s ev) evs" by (simp add: run_def)
  have c: "callers (ev # evs) = callers [ev] @ callers evs" by (cases ev) simp_all
  show ?case unfolding r c using ih st by simp
qed

lemma run_append: "run e rf s (xs @ ys) = run e rf (run e rf s xs) ys"
  by (simp add: run_def)

lemma run_Cons: "run e rf s (x # xs) = run e rf (step e rf s x) xs"
  by (simp add: run_def)

lemma run_Nil: "run e rf s [] = s"
  by (simp add: run_def)

text \<open>
  C7. Let a first caller start an initialisation whose body reaches its PING (URL
  configured, nothing in flight before), let any number of further callers call while
  that attempt is in flight, interleaved with connection events, and let the PING then
  settle. Then the shared promise is pending until the PING settles and is cleared by
  it, exactly one client has been constructed, and the first caller and every later one
  receive the same boolean, the outcome of that PING.
\<close>

theorem concurrent_init_one_attempt:
  assumes url: "env_truthy (REDIS_URL e)"
    and idle: "connectionPromise (world_of s) = None" "waiting s = []"
    and sync_ok: "require_ioredis a0 = None" "new_Redis a0 = None"
    and calls: "\<forall>ev \<in> set evs. \<not> is_settle ev"
  shows "connectionPromise (world_of (run e rf s (Call i0 a0 # evs))) = Some Pending
       \<and> attempts (world_of (run e rf s (Call i0 a0 # evs @ [Settle p])))
           = attempts (world_of s) + 1
       \<and> received (run e rf s (Call i0 a0 # evs @ [Settle p]))
           = received s @ map (\<lambda>i. (i, \<not> isl p)) (i0 # callers evs)
       \<and> waiting (run e rf s (Call i0 a0 # evs @ [Settle p])) = []
       \<and> connectionPromise (world_of (run e rf s (Call i0 a0 # evs @ [Settle p]))) = None"
proof -
  define s1 where "s1 = step e rf s (Call i0 a0)"
  have s1: "connectionPromise (world_of s1) = Some Pending"
      "attempts (world_of s1) = attempts (world_of s) + 1"
      "waiting s1 = [i0]" "received s1 = received s"
    using url idle sync_ok
    by (simp_all add: s1_def initRedisClient_call_def init_try_def Let_def)
  define s2 where "s2 = run e rf s1 evs"
  note fl = in_flight_run [OF url s1(1) calls, of rf]
  have s2: "connectionPromise (world_of s2) = Some Pending"
      "attempts (world_of s2) = attempts (world_of s) + 1"
      "waiting s2 = i0 # callers evs" "received s2 = received s"
    using fl s1 by (simp_all add: s2_def)
  have r: "run e rf s (Call i0 a0 # evs @ [Settle p]) = step e rf s2 (Settle p)"
    by (simp only: run_Cons run_append run_Nil s1_def s2_def)
  have r0: "run e rf s (Call i0 a0 # evs) = s2"
    by (simp only: run_Cons s1_def s2_def)
  show ?thesis unfolding r r0 using s2
    by (cases p) (simp_all add: initRedisClient_settle_def init_finally_def init_catch_def)
qed

theorem concurrent_init_one_attempt_witness:
  "env_truthy (REDIS_URL env_plain) \<and> connectionPromise (world_of sched_idle) = None
   \<and> attempts (world_of (run env_plain read_ca sched_idle
        (Call 0 attempt_ok # [Call 1 attempt_refused, Ready, Call 2 attempt_ok] @ [Settle (Inl RedisError)]))) = 1
   \<and> received (run env_plain read_ca sched_idle
        (Call 0 attempt_ok # [Call 1 attempt_refused, Ready, Call 2 attempt_ok] @ [Settle (Inl RedisError)]))
       = [(0, False), (1, False), (2, False)]"
proof -
  have h: "env_truthy (REDIS_URL env_plain)" "connectionPromise (world_of sched_idle) = None"
      "waiting sched_idle = []" "require_ioredis attempt_ok = None" "new_Redis attempt_ok = None"
    by (simp_all add: env_plain_def env_truthy_def sched_idle_def world_idle_def attempt_ok_def)
  have c: "\<forall>ev \<in> set [Call 1 attempt_refused, Ready, Call 2 attempt_ok]. \<not> is_settle ev"
    by simp
  show ?thesis
    using h(1,2) concurrent_init_one_attempt [OF h c, of read_ca 0 "Inl RedisError"]
    by (simp add: sched_idle_def world_idle_def)
qed

section \<open>Remote commands that do not raise\<close>

lemma take_fault_ok:
  "no_fault (Suc n) w \<Longrightarrow> take_fault w = (False, w\<lparr>faults := tl (faults w)\<rparr>)"
  by (cases "faults w") (auto simp: take_fault_def no_fault_def)

lemma no_fault_tl: "no_fault (Suc n) w \<Longrightarrow> no_fault n (w\<lparr>faults := tl (faults w)\<rparr>)"
  by (cases "faults w") (auto simp: no_fault_def)

lemma no_fault_Suc: "no_fault (Suc n) w \<Longrightarrow> no_fault n w"
  using set_take_subset_set_take [of n "Suc n" "faults w"] by (auto simp: no_fault_def)

lemma no_fault_remote_upd [simp]: "no_fault n (w\<lparr>remote := r\<rparr>) = no_fault n w"
  by (simp add: no_fault_def)

lemma avail_faults_upd [simp]: "isRedisAvailable (w\<lparr>faults := f\<rparr>) = isRedisAvailable w"
  by (simp add: isRedisAvailable_def)

lemma avail_remote_upd [simp]: "isRedisAvailable (w\<lparr>remote := r\<rparr>) = isRedisAvailable w"
  by (simp add: isRedisAvailable_def)

lemma avail_cache_upd [simp]: "isRedisAvailable (w\<lparr>memoryCache := m\<rparr>) = isRedisAvailable w"
  by (simp add: isRedisAvailable_def)

lemma avail_sessions_upd [simp]: "isRedisAvailable (w\<lparr>memorySessions := m\<rparr>) = isRedisAvailable w"
  by (simp add: isRedisAvailable_def)

lemma avail_client: "isRedisAvailable w \<Longrightarrow> getRedisClient w \<noteq> None"
  by (simp add: isRedisAvailable_def getRedisClient_def)




section \<open>Writing and reading the cache\<close>

lemma jsonify_id: "is_json v \<Longrightarrow> jsonify v = v"
proof (induction v rule: jsonify.induct)
  case 1
  then show ?case by simp
next
  case (2 xs)
  then show ?case by (simp add: list_all_iff map_idI)
next
  case (3 kvs)
  have f: "filter (\<lambda>kv. snd kv \<noteq> JUndefined) kvs = kvs"
    using 3(2) by (auto simp: list_all_iff filter_id_conv)
  have "map (\<lambda>kv. (fst kv, jsonify (snd kv))) kvs = kvs"
  proof (rule map_idI)
    fix kv assume m: "kv \<in> set kvs"
    then have "is_json (snd kv)" using 3(2) by (simp add: list_all_iff)
    moreover have "kv \<in> set (filter (\<lambda>kv. snd kv \<noteq> JUndefined) kvs)" using m f by simp
    ultimately have "jsonify (snd kv) = snd kv" using 3(1) by blast
    then show "(fst kv, jsonify (snd kv)) = kv" by simp
  qed
  then show ?case using f by simp
qed simp_all

lemma set_get_fallback:
  assumes "\<not> isRedisAvailable w" "later \<le> now + ttl * 1000" "v \<noteq> JUndefined"
  shows "fst (get_cache (snd (set_cache w now k v ttl)) later k) = Inr (jsonify v)"
  using assms
  by (simp add: set_cache_def get_cache_def memory_set_def memory_get_def Let_def
      update_conv' JSON_stringify_def)

lemma set_get_remote:
  assumes "isRedisAvailable w" "no_fault 2 w" "0 < ttl" "v \<noteq> JUndefined"
    and "later \<le> now + ttl * 1000"
  shows "fst (get_cache (snd (set_cache w now k v ttl)) later k) = Inr (jsonify v)"
proof -
  have n2: "no_fault (Suc 1) w" using assms(2) by (simp add: numeral_2_eq_2)
  define w1 where "w1 = w\<lparr>faults := tl (faults w)\<rparr>"
  have t1: "take_fault w = (False, w1)" using take_fault_ok [OF n2] by (simp add: w1_def)
  have n1: "no_fault (Suc 0) w1" using no_fault_tl [OF n2] by (simp add: w1_def)
  define fk where "fk = CACHE_PREFIX @ k"
  define w2 where "w2 = w1\<lparr>remote :=
    AList.update fk \<lparr>rvalue = Json (jsonify v), rexpires = now + ttl * 1000\<rparr> (remote w1)\<rparr>"
  have s: "set_cache w now k v ttl = (True, w2)"
    using assms avail_client [OF assms(1)] t1
    by (simp add: set_cache_def client_setex_def Let_def JSON_stringify_def to_arg_def
        w2_def fk_def)
  have a2: "isRedisAvailable w2" using assms(1) by (simp add: w2_def w1_def)
  have n1': "no_fault (Suc 0) w2" using n1 by (simp add: w2_def)
  have t2: "take_fault w2 = (False, w2\<lparr>faults := tl (faults w2)\<rparr>)"
    by (rule take_fault_ok [OF n1'])
  have lk: "map_of (remote w2) fk = Some \<lparr>rvalue = Json (jsonify v), rexpires = now + ttl * 1000\<rparr>"
    by (simp add: w2_def update_conv')
  have g: "fst (get_cache w2 later k) = Inr (jsonify v)"
    using a2 avail_client [OF a2] t2 lk assms(5)
    by (simp add: get_cache_def client_get_def Let_def live_def fk_def [symmetric])
  show ?thesis using s g by simp
qed

text \<open>
  C1, as the code has it. For every key \<open>k\<close>, every JSON value \<open>v\<close> (a value with no
  \<^verbatim>\<open>undefined\<close> in it) and every \<open>ttl\<close> that is positive (on the fallback map, not
  negative), \<open>set\<close> followed by \<open>get\<close> at the same clock value returns \<open>v\<close>: when the
  remote store is not available, and when it is available and neither of the two remote
  commands raises.
\<close>

theorem set_then_get_returns_value:
  assumes "is_json v"
    and "if isRedisAvailable w then 0 < ttl \<and> no_fault 2 w else 0 \<le> ttl"
  shows "fst (get_cache (snd (set_cache w now k v ttl)) now k) = Inr v"
proof -
  have u: "v \<noteq> JUndefined" using assms(1) by auto
  have "fst (get_cache (snd (set_cache w now k v ttl)) now k) = Inr (jsonify v)"
  proof (cases "isRedisAvailable w")
    case True
    then show ?thesis using assms(2) u by (simp add: set_get_remote)
  next
    case False
    then show ?thesis using assms(2) u by (simp add: set_get_fallback)
  qed
  then show ?thesis by (simp add: jsonify_id [OF assms(1)])
qed

theorem set_then_get_returns_value_witness:
  "is_json (JArr [JStr ''a'', JNull]) \<and> isRedisAvailable world_up \<and> no_fault 2 world_up
   \<and> fst (get_cache (snd (set_cache world_up 5 ''k'' (JArr [JStr ''a'', JNull]) 60)) 5 ''k'')
       = Inr (JArr [JStr ''a'', JNull])
   \<and> \<not> isRedisAvailable world_idle
   \<and> fst (get_cache (snd (set_cache world_idle 5 ''k'' (JArr [JStr ''a'', JNull]) 0)) 5 ''k'')
       = Inr (JArr [JStr ''a'', JNull])"
proof -
  have j: "is_json (JArr [JStr ''a'', JNull])" by simp
  have up: "isRedisAvailable world_up" "no_fault 2 world_up"
    by (simp_all add: world_up_def world_idle_def isRedisAvailable_def no_fault_def)
  have idle: "\<not> isRedisAvailable world_idle"
    by (simp add: world_idle_def isRedisAvailable_def)
  have h1: "if isRedisAvailable world_up then (0::int) < 60 \<and> no_fault 2 world_up else (0::int) \<le> 60"
    using up by simp
  have h2: "if isRedisAvailable world_idle then (0::int) < 0 \<and> no_fault 2 world_idle else (0::int) \<le> 0"
    using idle by simp
  show ?thesis
    using j up idle set_then_get_returns_value [OF j h1, of 5 "''k''"]
      set_then_get_returns_value [OF j h2, of 5 "''k''"]
    by simp
qed

text \<open>
  C1 as stated fails: with a negative \<open>ttl\<close> the entry written to the fallback map is
  expired at once and \<open>get\<close> returns the absent value; for the value
  \<^verbatim>\<open>undefined\<close> the entry holds no text, so that \<open>get\<close> raises; and when the remote
  store is available, takes the write and then fails the read, \<open>get\<close> goes on to the
  fallback map, which was not written.
\<close>

theorem set_then_get_counterexample:
  "fst (get_cache (snd (set_cache world_idle 0 ''k'' (JNum 1) (- 1))) 0 ''k'') = Inr JNull
   \<and> fst (get_cache (snd (set_cache world_idle 0 ''k'' (JNum 1) (- 1))) 0 ''k'') \<noteq> Inr (JNum 1)
   \<and> fst (get_cache (snd (set_cache world_idle 0 ''k'' JUndefined 60)) 0 ''k'') = Inl SyntaxError
   \<and> isRedisAvailable world_flaky
   \<and> fst (get_cache (snd (set_cache world_flaky 0 ''k'' (JNum 1) 60)) 0 ''k'') = Inr JNull"
  by (simp add: set_cache_def get_cache_def memory_set_def memory_get_def Let_def
      world_idle_def world_up_def world_flaky_def isRedisAvailable_def getRedisClient_def
      client_setex_def client_get_def take_fault_def to_arg_def
      JSON_stringify_def CACHE_PREFIX_def)

section \<open>Expiry\<close>
















section \<open>Sessions\<close>

















lemma no_fault_faults_upd: "no_fault n (w\<lparr>faults := f\<rparr>) = (True \<notin> set (take n f))"
  by (simp add: no_fault_def)






section \<open>Texts that are not JSON\<close>









section \<open>Deleting by pattern\<close>

lemma RegExp_dot:
  "RegExp ''^cache:a.c$''
  = Inr [One (Lit CHR ''c''), One (Lit CHR ''a''), One (Lit CHR ''c''), One (Lit CHR ''h''),
         One (Lit CHR ''e''), One (Lit CHR '':''), One (Lit CHR ''a''), One Dot, One (Lit CHR ''c'')]"
  by (simp add: RegExp_def syntax_char_def)

lemma RegExp_star:
  "RegExp ''^cache:x.*$''
  = Inr [One (Lit CHR ''c''), One (Lit CHR ''a''), One (Lit CHR ''c''), One (Lit CHR ''h''),
         One (Lit CHR ''e''), One (Lit CHR '':''), One (Lit CHR ''x''), Star Dot]"
  by (simp add: RegExp_def syntax_char_def)

text \<open>
  Where the glob and the code agree: for a pattern with no other syntax character of
  regular expressions than \<open>*\<close>, and keys with no line terminator in them, the loop
  over the fallback map deletes the keys that the glob matches and counts them.
\<close>

lemma replace_stars_hd: "replace_stars cs = d # ds \<Longrightarrow> d \<noteq> CHR ''*''"
  by (cases cs) (auto split: if_splits)

lemma star_syntax: "syntax_char CHR ''*''" "syntax_char CHR ''.''"
  by (simp_all add: syntax_char_def)

lemma parse_replace_stars:
  "plain_pattern p \<Longrightarrow> parse_items (replace_stars p) = Inr (map item_of p)"
proof (induction p)
  case Nil
  then show ?case by simp
next
  case (Cons c cs)
  then have ih: "parse_items (replace_stars cs) = Inr (map item_of cs)"
    and c: "c = CHR ''*'' \<or> \<not> syntax_char c"
    by (simp_all add: plain_pattern_def)
  show ?case
  proof (cases "c = CHR ''*''")
    case True
    then show ?thesis using ih by (simp add: item_of_def)
  next
    case False
    with c have ns: "\<not> syntax_char c" by simp
    then have nd: "c \<noteq> CHR ''.''" using star_syntax(2) by auto
    show ?thesis
    proof (cases "replace_stars cs")
      case Nil
      then have "cs = []" by (cases cs) (auto split: if_splits)
      then show ?thesis using False ns nd by (simp add: item_of_def)
    next
      case (Cons d ds)
      then have "d \<noteq> CHR ''*''" by (rule replace_stars_hd)
      then show ?thesis using False ns nd ih Cons by (simp add: item_of_def)
    qed
  qed
qed

lemma RegExp_anchored: "RegExp (''^'' @ x @ ''$'') = parse_items x"
  by (simp add: RegExp_def)

lemma items_match_glob:
  "\<forall>c \<in> set s. \<not> line_terminator c \<Longrightarrow> items_match (map item_of p) s = glob_matches p s"
proof (induction p s rule: glob_matches.induct)
  case (1 s)
  then show ?case by simp
next
  case (2 p ps)
  then show ?case by (simp add: item_of_def)
next
  case (3 p ps c cs)
  then show ?case by (auto simp: item_of_def)
qed

lemma delete_matching_fold:
  "fold (\<lambda>key (m', count). if P key then (AList.delete key m', count + 1) else (m', count)) ks (m, n)
   = (filter (\<lambda>kv. \<not> (fst kv \<in> set ks \<and> P (fst kv))) m, n + length (filter P ks))"
proof (induction ks arbitrary: m n)
  case Nil
  then show ?case by simp
next
  case (Cons k ks)
  have d: "AList.delete k m = filter (\<lambda>kv. fst kv \<noteq> k) m"
    by (auto simp: AList.delete_eq intro: filter_cong)
  show ?case
  proof (cases "P k")
    case True
    have "filter (\<lambda>kv. \<not> (fst kv \<in> set ks \<and> P (fst kv))) (filter (\<lambda>kv. fst kv \<noteq> k) m)
        = filter (\<lambda>kv. \<not> (fst kv \<in> set (k # ks) \<and> P (fst kv))) m"
      using True by (auto intro: filter_cong)
    then show ?thesis using True Cons.IH [of "AList.delete k m" "n + 1"] d by simp
  next
    case False
    have "filter (\<lambda>kv. \<not> (fst kv \<in> set ks \<and> P (fst kv))) m
        = filter (\<lambda>kv. \<not> (fst kv \<in> set (k # ks) \<and> P (fst kv))) m"
      using False by (auto intro: filter_cong)
    then show ?thesis using False Cons.IH [of m n] by simp
  qed
qed

lemma delete_matching_filter:
  "delete_matching regex m
   = (filter (\<lambda>kv. \<not> regex_test regex (fst kv)) m,
      length (filter (regex_test regex) (map fst m)))"
proof -
  have "filter (\<lambda>kv. \<not> (fst kv \<in> set (map fst m) \<and> regex_test regex (fst kv))) m
      = filter (\<lambda>kv. \<not> regex_test regex (fst kv)) m"
    by (auto intro: filter_cong)
  then show ?thesis
    unfolding delete_matching_def delete_matching_fold by simp
qed

lemma cache_prefix_plain: "plain_pattern p \<Longrightarrow> plain_pattern (CACHE_PREFIX @ p)"
  by (simp add: plain_pattern_def CACHE_PREFIX_def syntax_char_def)

lemma replace_stars_append: "replace_stars (a @ b) = replace_stars a @ replace_stars b"
  by (induction a) simp_all

lemma delByPattern_plain:
  assumes "\<not> isRedisAvailable w" "plain_pattern p"
    and "\<forall>k \<in> set (map fst (memoryCache w)). \<forall>c \<in> set k. \<not> line_terminator c"
  shows "delByPattern w now p
       = (Inr (length (filter (glob_matches (CACHE_PREFIX @ p)) (map fst (memoryCache w)))),
          w\<lparr>memoryCache := filter (\<lambda>kv. \<not> glob_matches (CACHE_PREFIX @ p) (fst kv)) (memoryCache w)\<rparr>)"
proof -
  define regex where "regex = map item_of (CACHE_PREFIX @ p)"
  define src where "src = ''^'' @ replace_stars (CACHE_PREFIX @ p) @ ''$''"
  have rx: "RegExp src = Inr regex"
    unfolding src_def regex_def RegExp_anchored
    by (rule parse_replace_stars [OF cache_prefix_plain [OF assms(2)]])
  have t: "\<And>k. k \<in> set (map fst (memoryCache w)) \<Longrightarrow>
      regex_test regex k = glob_matches (CACHE_PREFIX @ p) k"
  proof -
    fix k assume "k \<in> set (map fst (memoryCache w))"
    then have "\<forall>c \<in> set k. \<not> line_terminator c" using assms(3) by blast
    then show "regex_test regex k = glob_matches (CACHE_PREFIX @ p) k"
      unfolding regex_test_def regex_def by (rule items_match_glob)
  qed
  have f1: "filter (regex_test regex) (map fst (memoryCache w))
      = filter (glob_matches (CACHE_PREFIX @ p)) (map fst (memoryCache w))"
    using t by (auto intro: filter_cong)
  have f2: "filter (\<lambda>kv. \<not> regex_test regex (fst kv)) (memoryCache w)
      = filter (\<lambda>kv. \<not> glob_matches (CACHE_PREFIX @ p) (fst kv)) (memoryCache w)"
    using t by (auto intro!: filter_cong)
  have dm: "delete_matching regex (memoryCache w)
      = (filter (\<lambda>kv. \<not> glob_matches (CACHE_PREFIX @ p) (fst kv)) (memoryCache w),
         length (filter (glob_matches (CACHE_PREFIX @ p)) (map fst (memoryCache w))))"
    by (simp only: delete_matching_filter f1 f2)
  have un: "delByPattern w now p =
      (case RegExp src of
         Inl err \<Rightarrow> (Inl err, w)
       | Inr regex \<Rightarrow>
           (let (m, deleted) = delete_matching regex (memoryCache w)
            in (Inr (0 + deleted), w\<lparr>memoryCache := m\<rparr>)))"
    using assms(1) by (simp add: delByPattern_def Let_def src_def)
  show ?thesis
    unfolding un rx by (simp add: dm del: filter_map)
qed

text \<open>
  C3 does not hold of the code. The fallback map holds the keys \<^verbatim>\<open>cache:abc\<close>,
  \<^verbatim>\<open>cache:a.c\<close> and \<^verbatim>\<open>cache:x\ny\<close>. With the pattern \<^verbatim>\<open>a.c\<close>, whose glob matches
  the second key only, \<open>delByPattern\<close> deletes the first key too and returns 2: the dot
  of the pattern reaches the regular expression unescaped. With the pattern \<^verbatim>\<open>x*\<close>,
  whose glob matches the third key, \<open>delByPattern\<close> deletes nothing and returns 0: the
  wildcard becomes \<^verbatim>\<open>.*\<close>, which does not match a line terminator.
\<close>

theorem delByPattern_differs_from_glob:
  "\<not> glob_matches (CACHE_PREFIX @ ''a.c'') ''cache:abc''
   \<and> glob_matches (CACHE_PREFIX @ ''a.c'') ''cache:a.c''
   \<and> fst (delByPattern world_abc 0 ''a.c'') = Inr 2
   \<and> map fst (memoryCache (snd (delByPattern world_abc 0 ''a.c'')))
       = [''cache:x'' @ [CHR 0x0A] @ ''y'']
   \<and> glob_matches (CACHE_PREFIX @ ''x*'') (''cache:x'' @ [CHR 0x0A] @ ''y'')
   \<and> fst (delByPattern world_abc 0 ''x*'') = Inr 0
   \<and> memoryCache (snd (delByPattern world_abc 0 ''x*'')) = memoryCache world_abc"
  by (simp add: delByPattern_def Let_def RegExp_dot RegExp_star world_abc_def world_idle_def
      isRedisAvailable_def delete_matching_def regex_test_def AList.delete_eq CACHE_PREFIX_def
      line_terminator_def)

section \<open>Get or set\<close>

lemma getOrSet_hit:
  "get_cache w now k = (Inr cached, w1) \<Longrightarrow> cached \<noteq> JNull \<Longrightarrow>
   getOrSet w now k fetchFn s ttl = (Inr cached, w1, s)"
  by (simp add: getOrSet_def)

lemma getOrSet_miss:
  "fst (get_cache w now k) = Inr JNull \<Longrightarrow>
   snd (snd (getOrSet w now k fetchFn s ttl)) = snd (fetchFn s)"
  by (cases "get_cache w now k"; cases "fetchFn s")
     (auto simp: getOrSet_def split: sum.splits)

text \<open>
  After a miss that stored the value \<open>v\<close> produced, a second call within the time to
  live finds \<open>v\<close>; it leaves the producer alone unless \<open>v\<close> is \<^verbatim>\<open>null\<close>.
\<close>

lemma getOrSet_second_call:
  assumes miss: "get_cache w now k = (Inr JNull, w1)"
    and prod: "fetchFn s = (Inr v, s1)"
    and json: "is_json v"
    and ok: "if isRedisAvailable w1 then 0 < ttl \<and> no_fault 2 w1 else True"
    and window: "later \<le> now + ttl * 1000"
  shows "getOrSet w now k fetchFn s ttl = (Inr v, snd (set_cache w1 now k v ttl), s1)"
    and "snd (snd (getOrSet (snd (set_cache w1 now k v ttl)) later k fetchFn s1 ttl))
           = (if v = JNull then snd (fetchFn s1) else s1)"
proof -
  have u: "v \<noteq> JUndefined" using json by auto
  show "getOrSet w now k fetchFn s ttl = (Inr v, snd (set_cache w1 now k v ttl), s1)"
    using miss prod u by (simp add: getOrSet_def)
  have "fst (get_cache (snd (set_cache w1 now k v ttl)) later k) = Inr (jsonify v)"
  proof (cases "isRedisAvailable w1")
    case True
    then show ?thesis using ok u window by (simp add: set_get_remote)
  next
    case False
    then show ?thesis using u window by (simp add: set_get_fallback)
  qed
  then have g: "fst (get_cache (snd (set_cache w1 now k v ttl)) later k) = Inr v"
    by (simp add: jsonify_id [OF json])
  show "snd (snd (getOrSet (snd (set_cache w1 now k v ttl)) later k fetchFn s1 ttl))
           = (if v = JNull then snd (fetchFn s1) else s1)"
  proof (cases "v = JNull")
    case True
    then show ?thesis using g getOrSet_miss [of "snd (set_cache w1 now k v ttl)" later k fetchFn s1 ttl]
      by simp
  next
    case False
    obtain w2 where "get_cache (snd (set_cache w1 now k v ttl)) later k = (Inr v, w2)"
      using g by (cases "get_cache (snd (set_cache w1 now k v ttl)) later k") simp
    then show ?thesis using False getOrSet_hit [of _ later k v w2 fetchFn s1 ttl] by simp
  qed
qed

text \<open>
  C4 does not hold of the code. On the fallback map, the first \<open>getOrSet\<close> invokes a
  producer that returns \<^verbatim>\<open>null\<close> and stores the text of \<^verbatim>\<open>null\<close> for 60 seconds;
  the second \<open>getOrSet\<close>, at the same clock value, reads that entry, takes the
  \<^verbatim>\<open>null\<close> it holds for a miss and invokes the producer again.
\<close>

theorem getOrSet_reinvokes_producer_for_null:
  "snd (snd (getOrSet world_idle 0 ''k'' (counting JNull) 0 60)) = 1
   \<and> map_of (memoryCache (fst (snd (getOrSet world_idle 0 ''k'' (counting JNull) 0 60)))) ''cache:k''
       = Some \<lparr>cvalue = Some (Json JNull), expiresAt = 60000\<rparr>
   \<and> snd (snd (getOrSet (fst (snd (getOrSet world_idle 0 ''k'' (counting JNull) 0 60))) 0 ''k''
        (counting JNull) 1 60)) = 2"
  by (simp add: getOrSet_def get_cache_def set_cache_def memory_get_def memory_set_def Let_def
      world_idle_def isRedisAvailable_def counting_def CACHE_PREFIX_def JSON_stringify_def)

end
